theory Spec2Isabelle
  imports Main "HOL-Library.AList"
begin

section \<open>The asynchronous insight jobs of the Facebook Marketing source\<close>

text \<open>
  A shallow embedding of \<^verbatim>\<open>source_facebook_marketing/streams/async_job.py\<close>.
  Every method becomes a function that takes the job (and, where the method talks to
  the remote API, the trace of requests made so far) and returns its outcome together
  with the updated job: a Python exception does not roll back the assignments made
  before it, so the job is returned on the error branch too.

  Conventions of the embedding:
  \<^item> attributes \<^verbatim>\<open>self._x\<close> are record fields \<open>self_x\<close>;
  \<^item> an exception is a value \<open>Inl e\<close> of the type \<open>py_error\<close>; the
    \<^verbatim>\<open>RuntimeError\<close> raised on misuse is what the specification calls
    \<^verbatim>\<open>InvalidStateError\<close>;
  \<^item> the surroundings are a parameter \<open>env\<close>: the answers of the remote API, which
    are arbitrary functions of the number of requests made before and of the request, and
    whether the logger is enabled for INFO; a theorem for all \<open>env\<close> holds for every
    behaviour of the remote side and either setting of the logger;
  \<^item> a log statement is evaluated as Python does: its arguments first, then the call,
    which raises when it is given keywords and the logger is enabled;
  \<^item> a date is its day number, a point in time a clock reading.
\<close>

subsection \<open>Values\<close>

type_synonym date = int
type_synonym datetime = nat
type_synonym FacebookAdsApi = nat

record Period =
  period_start :: date
  period_end :: date

datatype param = Str string | StrList "string list" | Num int | TimeRange date date

type_synonym params = "(string \<times> param) list"

type_synonym row = "(string \<times> string) list"

datatype edge_object = AdAccount string | Campaign string

text \<open>
  The remote handle (\<^verbatim>\<open>AdReportRun\<close>): the snapshot of the remote report run,
  exposing its identifier, its status and its diagnostic completion percentage. A job
  holds \<open>Some\<close> handle or \<open>None\<close>; the tests \<^verbatim>\<open>if self._job\<close> and
  \<^verbatim>\<open>if not self._job\<close> ask which (a handle returned by the API is never empty).
\<close>

record AdReportRun =
  report_run_id :: string
  async_status :: string
  async_percent_completion :: nat

datatype py_error =
    RuntimeError string
  | KeyError string
  | TypeError string
  | AttributeError string
  | ValueError string
  | OverflowError string
  | FacebookRequestError

text \<open>The members of \<^verbatim>\<open>class Status(str, Enum)\<close>: strings, compared by value.\<close>

definition COMPLETED :: string where "COMPLETED = ''Job Completed''"
definition FAILED :: string where "FAILED = ''Job Failed''"
definition SKIPPED :: string where "SKIPPED = ''Job Skipped''"
definition STARTED :: string where "STARTED = ''Job Started''"
definition RUNNING :: string where "RUNNING = ''Job Running''"
definition NOT_STARTED :: string where "NOT_STARTED = ''Job Not Started''"

subsection \<open>The remote side\<close>

datatype request =
    GetInsightsAsync edge_object params
  | GetInsights edge_object params
  | ApiGet AdReportRun
  | BatchExecute "AdReportRun list"
  | GetResult AdReportRun nat

text \<open>The trace of the network interactions made so far, oldest first.\<close>

type_synonym world = "request list"

text \<open>
  What one call of a batch comes back with: a successful response (the success callback
  runs), an error response (the failure callback runs), or no response (the call is
  handed back for a retry).
\<close>

datatype reply = Success AdReportRun | Failure | NoReply

text \<open>
  The surroundings of the job engine. The result fetch answers with the first page of rows,
  or not at all (\<^verbatim>\<open>FacebookRequestError\<close>). \<open>info_enabled\<close> is
  \<^verbatim>\<open>logger.isEnabledFor(INFO)\<close> of the logger \<^verbatim>\<open>airbyte\<close>.
\<close>

record remote =
  clock :: "nat \<Rightarrow> datetime"
  get_insights_async :: "nat \<Rightarrow> edge_object \<Rightarrow> params \<Rightarrow> py_error + AdReportRun"
  get_insights :: "nat \<Rightarrow> edge_object \<Rightarrow> params \<Rightarrow> py_error + row list"
  api_get :: "nat \<Rightarrow> AdReportRun \<Rightarrow> py_error + AdReportRun"
  batch_reply :: "nat \<Rightarrow> nat \<Rightarrow> AdReportRun \<Rightarrow> reply"
  get_result_rows :: "nat \<Rightarrow> AdReportRun \<Rightarrow> nat \<Rightarrow> row list option"
  info_enabled :: bool

text \<open>\<^verbatim>\<open>pendulum.now()\<close>: the clock, read after the requests made so far.\<close>

definition now :: "remote \<Rightarrow> world \<Rightarrow> datetime" where
  "now env w = clock env (length w)"

subsection \<open>Logging and dictionary access\<close>

text \<open>
  \<^verbatim>\<open>logger.info(msg, key=value, ...)\<close>, once the arguments are evaluated: the method
  \<^verbatim>\<open>Logger.info\<close> of the standard library does nothing when the logger is not enabled
  for INFO, and otherwise hands its keywords to \<^verbatim>\<open>Logger._log\<close>, which accepts none
  of the keywords used in this module and raises \<^verbatim>\<open>TypeError\<close>. A call with
  positional arguments only never raises (an error in formatting the record is handled
  inside the handler), so such calls have no counterpart here.
\<close>

definition logger_info_keywords :: "remote \<Rightarrow> py_error + unit" where
  "logger_info_keywords env =
     (if info_enabled env then Inl (TypeError ''_log() got an unexpected keyword argument'')
      else Inr ())"

text \<open>\<^verbatim>\<open>d[key]\<close> on a dictionary.\<close>

definition getitem :: "params \<Rightarrow> string \<Rightarrow> py_error + param" where
  "getitem d key = (case map_of d key of None \<Rightarrow> Inl (KeyError key) | Some v \<Rightarrow> Inr v)"

text \<open>The least date, 0001-01-01, as a day number; arithmetic below it raises.\<close>

definition date_min :: date where "date_min = - 719162"

subsection \<open>\<^verbatim>\<open>chunks\<close>\<close>

text \<open>
  \<^verbatim>\<open>for i in range(0, len(data), n): yield data[i : i + n]\<close>.
  \<^verbatim>\<open>range\<close> refuses a step of zero.
\<close>

definition chunks :: "'a list \<Rightarrow> nat \<Rightarrow> py_error + 'a list list" where
  "chunks data n =
     (if n = 0 then Inl (ValueError ''range() arg 3 must not be zero'')
      else Inr (map (\<lambda>k. take n (drop (k * n) data)) [0 ..< (length data + n - 1) div n]))"

subsection \<open>\<^verbatim>\<open>AsyncJob\<close> and \<^verbatim>\<open>InsightAsyncJob\<close>\<close>

record insight_job =
  self_api :: FacebookAdsApi
  self_interval :: Period
  self_attempt_number :: nat
  self_params :: params
  self_edge_object :: edge_object
  self_job :: "AdReportRun option"
  self_start_time :: "datetime option"
  self_finish_time :: "datetime option"
  self_failed :: bool

text \<open>
  \<^verbatim>\<open>AsyncJob.__init__(self, api, interval)\<close>, reached through \<^verbatim>\<open>**kwargs\<close>:
  a keyword that the caller does not pass is \<open>None\<close> here, and binding the arguments
  raises \<^verbatim>\<open>TypeError\<close>. The result is the triple of the base attributes.
\<close>

definition AsyncJob_init ::
  "FacebookAdsApi option \<Rightarrow> Period option \<Rightarrow> py_error + (FacebookAdsApi \<times> Period \<times> nat)" where
  "AsyncJob_init api interval =
     (case api of
        None \<Rightarrow> Inl (TypeError ''__init__() missing required argument: api'')
      | Some a \<Rightarrow>
          (case interval of
             None \<Rightarrow> Inl (TypeError ''__init__() missing required argument: interval'')
           | Some i \<Rightarrow> Inr (a, i, 1)))"

definition InsightAsyncJob_init ::
  "edge_object \<Rightarrow> params \<Rightarrow> FacebookAdsApi option \<Rightarrow> Period option \<Rightarrow> py_error + insight_job" where
  "InsightAsyncJob_init edge ps api interval =
     (case AsyncJob_init api interval of
        Inl e \<Rightarrow> Inl e
      | Inr (a, i, n) \<Rightarrow>
          Inr \<lparr> self_api = a, self_interval = i, self_attempt_number = n,
                self_params = AList.update ''time_range'' (TimeRange (period_start i) (period_end i)) ps,
                self_edge_object = edge, self_job = None, self_start_time = None,
                self_finish_time = None, self_failed = False \<rparr>)"

definition Insight_completed :: "insight_job \<Rightarrow> bool" where
  "Insight_completed j = (self_finish_time j \<noteq> None)"

definition Insight_failed :: "insight_job \<Rightarrow> bool" where
  "Insight_failed j = self_failed j"

text \<open>\<^verbatim>\<open>elapsed_time\<close>: absent before the start, else up to the finish or up to now.\<close>

definition elapsed_time :: "remote \<Rightarrow> world \<Rightarrow> insight_job \<Rightarrow> int option" where
  "elapsed_time env w j =
     (case self_start_time j of
        None \<Rightarrow> None
      | Some s \<Rightarrow>
          (let end_time = (case self_finish_time j of Some f \<Rightarrow> f | None \<Rightarrow> now env w)
           in Some (int end_time - int s)))"

text \<open>
  \<^verbatim>\<open>__str__\<close>: the identifier of the run, then the two parameters, each read with
  \<^verbatim>\<open>self._params[...]\<close>. The text is cut after the identifier: the renderings of
  the edge object and of the two parameters are not spelled out, their lookups are made.
\<close>

definition Insight_str :: "insight_job \<Rightarrow> py_error + string" where
  "Insight_str j =
     (let job_id = (case self_job j of Some h \<Rightarrow> report_run_id h | None \<Rightarrow> ''<None>'')
      in case getitem (self_params j) ''time_range'' of
           Inl e \<Rightarrow> Inl e
         | Inr time_range \<Rightarrow>
             (case getitem (self_params j) ''breakdowns'' of
                Inl e \<Rightarrow> Inl e
              | Inr breakdowns \<Rightarrow> Inr (''InsightAsyncJob(id='' @ job_id)))"

text \<open>
  The exception of \<^verbatim>\<open>raise RuntimeError(f"{self}: ...")\<close>: the message is built
  first, and what building it raises is raised instead.
\<close>

definition misuse :: "insight_job \<Rightarrow> string \<Rightarrow> py_error" where
  "misuse j msg =
     (case Insight_str j of Inl e \<Rightarrow> e | Inr s \<Rightarrow> RuntimeError (s @ '': '' @ msg))"

text \<open>
  The log statement that ends \<^verbatim>\<open>start\<close>: its arguments read the identifier of the
  run and the parameters \<^verbatim>\<open>time_range\<close> and \<^verbatim>\<open>breakdowns\<close>.
\<close>

definition start_log :: "remote \<Rightarrow> insight_job \<Rightarrow> py_error + unit" where
  "start_log env j =
     (case getitem (self_params j) ''time_range'' of
        Inl e \<Rightarrow> Inl e
      | Inr time_range \<Rightarrow>
          (case getitem (self_params j) ''breakdowns'' of
             Inl e \<Rightarrow> Inl e
           | Inr breakdowns \<Rightarrow> logger_info_keywords env))"

definition Insight_start ::
  "remote \<Rightarrow> world \<Rightarrow> insight_job \<Rightarrow> (py_error + unit) \<times> world \<times> insight_job" where
  "Insight_start env w j =
     (if self_job j \<noteq> None
      then (Inl (misuse j ''Incorrect usage of start - the job already started, use restart instead''), w, j)
      else
        (let w' = w @ [GetInsightsAsync (self_edge_object j) (self_params j)]
         in case get_insights_async env (length w) (self_edge_object j) (self_params j) of
              Inl e \<Rightarrow> (Inl e, w', j)
            | Inr h \<Rightarrow>
                (let j' = j\<lparr> self_job := Some h, self_start_time := Some (now env w') \<rparr>
                 in (start_log env j', w', j'))))"

text \<open>
  \<^verbatim>\<open>restart\<close>. The log statement after the call of \<^verbatim>\<open>start\<close> has positional
  arguments only.
\<close>

definition Insight_restart ::
  "remote \<Rightarrow> world \<Rightarrow> insight_job \<Rightarrow> (py_error + unit) \<times> world \<times> insight_job" where
  "Insight_restart env w j =
     (if self_job j = None \<or> \<not> Insight_failed j
      then (Inl (misuse j ''Incorrect usage of restart - only failed jobs can be restarted''), w, j)
      else
        Insight_start env w
          (j\<lparr> self_job := None, self_failed := False, self_start_time := None,
              self_finish_time := None, self_attempt_number := self_attempt_number j + 1 \<rparr>))"

text \<open>
  \<^verbatim>\<open>_check_status\<close>. Subscripting an absent handle raises \<^verbatim>\<open>TypeError\<close>. The
  first log statement comes before every assignment. The second one, on the failed
  branch, comes after the assignments; its arguments call
  \<^verbatim>\<open>self.elapsed_time.in_seconds()\<close>, which raises \<^verbatim>\<open>AttributeError\<close> when there
  is no start time.
\<close>

definition Insight_check_status ::
  "remote \<Rightarrow> world \<Rightarrow> insight_job \<Rightarrow> (py_error + bool) \<times> insight_job" where
  "Insight_check_status env w j =
     (case self_job j of
        None \<Rightarrow> (Inl (TypeError ''NoneType object is not subscriptable''), j)
      | Some h \<Rightarrow>
          (let job_status = async_status h
           in case logger_info_keywords env of
                Inl e \<Rightarrow> (Inl e, j)
              | Inr _ \<Rightarrow>
                  if job_status = COMPLETED
                  then (Inr True, j\<lparr> self_finish_time := Some (now env w) \<rparr>)
                  else if job_status \<in> set [FAILED, SKIPPED]
                  then
                    (let j' = j\<lparr> self_finish_time := Some (now env w), self_failed := True \<rparr>
                     in case elapsed_time env w j' of
                          None \<Rightarrow>
                            (Inl (AttributeError ''NoneType object has no attribute in_seconds''), j')
                        | Some elapsed \<Rightarrow>
                            (case logger_info_keywords env of
                               Inl e \<Rightarrow> (Inl e, j')
                             | Inr _ \<Rightarrow> (Inr True, j')))
                  else (Inr False, j)))"

text \<open>
  The callbacks registered with a batch. The success callback stores the parsed response
  as the job's handle and checks the status; the failure callback only logs, with
  positional arguments.
\<close>

definition batch_success_handler ::
  "remote \<Rightarrow> world \<Rightarrow> insight_job \<Rightarrow> AdReportRun \<Rightarrow> (py_error + bool) \<times> insight_job" where
  "batch_success_handler env w j response =
     Insight_check_status env w (j\<lparr> self_job := Some response \<rparr>)"

definition batch_failure_handler :: "insight_job \<Rightarrow> insight_job" where
  "batch_failure_handler j = j"

text \<open>
  A batch (\<^verbatim>\<open>FacebookAdsApiBatch\<close>) is the list of its pending calls; each holds the
  reference to the job whose bound callbacks were registered and the handle to fetch.
\<close>

type_synonym job_ref = nat
type_synonym FacebookAdsApiBatch = "(job_ref \<times> AdReportRun) list"

text \<open>
  \<^verbatim>\<open>InsightAsyncJob.update_job(self, batch=None)\<close>; \<open>self\<close> is the reference under
  which the job's callbacks are registered. The batch object is mutated by the
  enqueueing, so it is returned. On a completed job the method logs, with keywords, and
  returns.
\<close>

definition Insight_update_job ::
  "remote \<Rightarrow> job_ref \<Rightarrow> world \<Rightarrow> insight_job \<Rightarrow> FacebookAdsApiBatch option \<Rightarrow>
     (py_error + unit) \<times> world \<times> insight_job \<times> FacebookAdsApiBatch option" where
  "Insight_update_job env self w j batch =
     (case self_job j of
        None \<Rightarrow> (Inl (misuse j ''Incorrect usage of the method - the job is not started''), w, j, batch)
      | Some h \<Rightarrow>
          if Insight_completed j then (logger_info_keywords env, w, j, batch)
          else
            (case batch of
               Some calls \<Rightarrow> (Inr (), w, j, Some (calls @ [(self, h)]))
             | None \<Rightarrow>
                 (let w' = w @ [ApiGet h]
                  in case api_get env (length w) h of
                       Inl e \<Rightarrow> (Inl e, w', j, None)
                     | Inr h' \<Rightarrow>
                         (case Insight_check_status env w' (j\<lparr> self_job := Some h' \<rparr>) of
                            (Inl e, j') \<Rightarrow> (Inl e, w', j', None)
                          | (Inr _, j') \<Rightarrow> (Inr (), w', j', None)))))"

text \<open>
  The lazy sequence of result rows of one report run: the handle, the page size and the
  first page, which the API client fetches when the sequence is created.
\<close>

datatype cursor = Cursor AdReportRun nat "row list"

definition page_size :: nat where "page_size = 100"

text \<open>
  \<^verbatim>\<open>InsightAsyncJob.get_result\<close>: the misuse error without any request, or the request
  for the first page and what it gives.
\<close>

definition Insight_get_result ::
  "remote \<Rightarrow> world \<Rightarrow> insight_job \<Rightarrow> (py_error + cursor) \<times> world" where
  "Insight_get_result env w j =
     (case self_job j of
        None \<Rightarrow>
          (Inl (misuse j ''Incorrect usage of get_result - the job is not started or failed''), w)
      | Some h \<Rightarrow>
          if Insight_failed j
          then (Inl (misuse j ''Incorrect usage of get_result - the job is not started or failed''), w)
          else
            (let w' = w @ [GetResult h page_size]
             in case get_result_rows env (length w) h page_size of
                  None \<Rightarrow> (Inl FacebookRequestError, w')
                | Some rows \<Rightarrow> (Inr (Cursor h page_size rows), w')))"

text \<open>
  What the class maintains: the \<^verbatim>\<open>time_range\<close> parameter is the job's interval, a
  failed job is finished, and a finished job has been started.
\<close>

definition leaf_inv :: "insight_job \<Rightarrow> bool" where
  "leaf_inv j =
     (map_of (self_params j) ''time_range''
        = Some (TimeRange (period_start (self_interval j)) (period_end (self_interval j)))
      \<and> (self_failed j \<longrightarrow> self_finish_time j \<noteq> None)
      \<and> (self_finish_time j \<noteq> None \<longrightarrow> self_job j \<noteq> None))"

subsection \<open>\<^verbatim>\<open>ParentAsyncJob\<close> and the jobs as one type\<close>

text \<open>
  A job is a leaf or a group of jobs. The children of a group are distinct objects, so
  the group owns them as a list, and a reference to a child is its position in
  \<^verbatim>\<open>_jobs\<close>. The arguments of \<open>ParentAsyncJob\<close> are \<^verbatim>\<open>_api\<close>,
  \<^verbatim>\<open>_interval\<close>, \<^verbatim>\<open>_attempt_number\<close> and \<^verbatim>\<open>_jobs\<close>.
\<close>

datatype async_job =
    InsightAsyncJob insight_job
  | ParentAsyncJob FacebookAdsApi Period nat "async_job list"

definition ParentAsyncJob_init ::
  "async_job list \<Rightarrow> FacebookAdsApi option \<Rightarrow> Period option \<Rightarrow> py_error + async_job" where
  "ParentAsyncJob_init jobs api interval =
     (case AsyncJob_init api interval of
        Inl e \<Rightarrow> Inl e
      | Inr (a, i, n) \<Rightarrow> Inr (ParentAsyncJob a i n jobs))"

fun jobs_of :: "async_job \<Rightarrow> async_job list" where
  "jobs_of (InsightAsyncJob j) = []"
| "jobs_of (ParentAsyncJob a i n jobs) = jobs"

fun interval_of :: "async_job \<Rightarrow> Period" where
  "interval_of (InsightAsyncJob j) = self_interval j"
| "interval_of (ParentAsyncJob a i n jobs) = i"

text \<open>The properties \<^verbatim>\<open>completed\<close> and \<^verbatim>\<open>failed\<close>: \<^verbatim>\<open>all\<close> and \<^verbatim>\<open>any\<close> over the children.\<close>

fun completed :: "async_job \<Rightarrow> bool" where
  "completed (InsightAsyncJob j) = Insight_completed j"
| "completed (ParentAsyncJob a i n jobs) = list_all completed jobs"

fun failed :: "async_job \<Rightarrow> bool" where
  "failed (InsightAsyncJob j) = Insight_failed j"
| "failed (ParentAsyncJob a i n jobs) = list_ex failed jobs"

text \<open>
  \<^verbatim>\<open>get_result\<close>, with the generator of a group drained: the sequences of the children
  in child order, up to the first exception (each leaf contributes the cursor over its
  rows).
\<close>

fun get_result ::
    "remote \<Rightarrow> world \<Rightarrow> async_job \<Rightarrow> cursor list \<times> py_error option \<times> world"
  and get_results ::
    "remote \<Rightarrow> world \<Rightarrow> async_job list \<Rightarrow> cursor list \<times> py_error option \<times> world" where
  "get_result env w (InsightAsyncJob j) =
     (case Insight_get_result env w j of
        (Inl e, w') \<Rightarrow> ([], Some e, w')
      | (Inr c, w') \<Rightarrow> ([c], None, w'))"
| "get_result env w (ParentAsyncJob a i n jobs) = get_results env w jobs"
| "get_results env w [] = ([], None, w)"
| "get_results env w (job # jobs) =
     (case get_result env w job of
        (cs, r, w') \<Rightarrow>
          (case r of
             Some e \<Rightarrow> (cs, Some e, w')
           | None \<Rightarrow> (case get_results env w' jobs of (cs', r', w'') \<Rightarrow> (cs @ cs', r', w''))))"

definition Parent_split_job :: "async_job \<Rightarrow> py_error + async_job" where
  "Parent_split_job p = Inl (RuntimeError ''Splitting of ParentAsyncJob is not allowed.'')"

subsection \<open>\<^verbatim>\<open>InsightAsyncJob.split_job\<close>\<close>

text \<open>A comprehension: the elements in order, up to the first exception.\<close>

fun traverse :: "('a \<Rightarrow> py_error + 'b) \<Rightarrow> 'a list \<Rightarrow> py_error + 'b list" where
  "traverse f [] = Inr []"
| "traverse f (x # xs) =
     (case f x of
        Inl e \<Rightarrow> Inl e
      | Inr y \<Rightarrow> (case traverse f xs of Inl e \<Rightarrow> Inl e | Inr ys \<Rightarrow> Inr (y # ys)))"

text \<open>
  The parameters of the probe query: a deep copy of the job's parameters, grouped by
  campaign, reaching 28 + 1 days further back, without \<^verbatim>\<open>time_increment\<close>
  (\<^verbatim>\<open>pop\<close> of an absent key raises \<^verbatim>\<open>KeyError\<close>). The new start is computed
  first, and the subtraction raises \<^verbatim>\<open>OverflowError\<close> below the least date.
\<close>

definition campaign_params :: "insight_job \<Rightarrow> py_error + params" where
  "campaign_params j =
     (let new_start = period_start (self_interval j) - (28 + 1)
      in if new_start < date_min then Inl (OverflowError ''date value out of range'')
         else
           (let cp = AList.update ''level'' (Str ''campaign'')
                       (AList.update ''fields'' (StrList [''campaign_id'']) (self_params j))
            in case map_of cp ''time_range'' of
                 None \<Rightarrow> Inl (KeyError ''time_range'')
               | Some (TimeRange since until) \<Rightarrow>
                   (let cp' = AList.update ''time_range'' (TimeRange new_start until) cp
                    in if map_of cp' ''time_increment'' = None
                       then Inl (KeyError ''time_increment'')
                       else Inr (AList.delete ''time_increment'' cp'))
               | Some _ \<Rightarrow> Inl (AttributeError ''update'')))"

text \<open>
  \<^verbatim>\<open>set(row["campaign_id"] for row in result)\<close>: the distinct keys, in one of the
  orders in which a set may be iterated.
\<close>

definition campaign_ids :: "row list \<Rightarrow> py_error + string list" where
  "campaign_ids result =
     (case traverse (\<lambda>row. case map_of row ''campaign_id'' of
                              None \<Rightarrow> Inl (KeyError ''campaign_id'')
                            | Some pk \<Rightarrow> Inr pk) result of
        Inl e \<Rightarrow> Inl e
      | Inr pks \<Rightarrow> Inr (remdups pks))"

text \<open>
  The log statement of \<^verbatim>\<open>split_job\<close>: its arguments read the parameter
  \<^verbatim>\<open>time_range\<close> of the job.
\<close>

definition split_log :: "remote \<Rightarrow> insight_job \<Rightarrow> py_error + unit" where
  "split_log env j =
     (case getitem (self_params j) ''time_range'' of
        Inl e \<Rightarrow> Inl e
      | Inr period \<Rightarrow> logger_info_keywords env)"

text \<open>
  \<^verbatim>\<open>split_job\<close>. The keys are logged before the children are built. The children are
  constructed with the keywords \<^verbatim>\<open>api\<close>, \<^verbatim>\<open>edge_object\<close> and \<^verbatim>\<open>params\<close>, and
  no \<^verbatim>\<open>interval\<close>.
\<close>

definition Insight_split_job ::
  "remote \<Rightarrow> world \<Rightarrow> insight_job \<Rightarrow> (py_error + async_job) \<times> world" where
  "Insight_split_job env w j =
     (case campaign_params j of
        Inl e \<Rightarrow> (Inl e, w)
      | Inr cp \<Rightarrow>
          (let w' = w @ [GetInsights (self_edge_object j) cp]
           in case get_insights env (length w) (self_edge_object j) cp of
                Inl e \<Rightarrow> (Inl e, w')
              | Inr result \<Rightarrow>
                  (case campaign_ids result of
                     Inl e \<Rightarrow> (Inl e, w')
                   | Inr ids \<Rightarrow>
                       (case split_log env j of
                          Inl e \<Rightarrow> (Inl e, w')
                        | Inr _ \<Rightarrow>
                            (case traverse (\<lambda>pk. InsightAsyncJob_init (Campaign pk) (self_params j)
                                                    (Some (self_api j)) None) ids of
                               Inl e \<Rightarrow> (Inl e, w')
                             | Inr jobs \<Rightarrow>
                                 (ParentAsyncJob_init (map InsightAsyncJob jobs)
                                    (Some (self_api j)) (Some (self_interval j)), w'))))))"

subsection \<open>The batch context\<close>

text \<open>
  Modelled from the spec: the batch execution context of the API client
  (\<^verbatim>\<open>FacebookAdsApiBatch\<close>), which is not part of the connector. It supports enqueueing a
  call with its two callbacks, and \<^verbatim>\<open>execute()\<close>, which returns either nothing pending or
  a new context holding the calls that must be retried; the caller loops while the
  context reports pending calls. One execution is one network round trip.
\<close>

definition new_batch :: "FacebookAdsApiBatch option" where
  "new_batch = Some []"

definition pending :: "FacebookAdsApiBatch option \<Rightarrow> bool" where
  "pending batch = (case batch of None \<Rightarrow> False | Some calls \<Rightarrow> calls \<noteq> [])"

text \<open>The callbacks are bound methods of leaf jobs; a group registers none.\<close>

fun success_callback ::
  "remote \<Rightarrow> world \<Rightarrow> async_job \<Rightarrow> AdReportRun \<Rightarrow> (py_error + bool) \<times> async_job" where
  "success_callback env w (InsightAsyncJob j) response =
     (case batch_success_handler env w j response of (r, j') \<Rightarrow> (r, InsightAsyncJob j'))"
| "success_callback env w (ParentAsyncJob a i n jobs) response =
     (Inr False, ParentAsyncJob a i n jobs)"

fun failure_callback :: "async_job \<Rightarrow> async_job" where
  "failure_callback (InsightAsyncJob j) = InsightAsyncJob (batch_failure_handler j)"
| "failure_callback (ParentAsyncJob a i n jobs) = ParentAsyncJob a i n jobs"

primrec run_callbacks ::
  "remote \<Rightarrow> world \<Rightarrow> async_job list \<Rightarrow> ((job_ref \<times> AdReportRun) \<times> reply) list \<Rightarrow>
     (py_error + unit) \<times> async_job list" where
  "run_callbacks env w jobs [] = (Inr (), jobs)"
| "run_callbacks env w jobs (x # rest) =
     (let r = fst (fst x)
      in case snd x of
           Success response \<Rightarrow>
             (case success_callback env w (jobs ! r) response of
                (Inl e, j') \<Rightarrow> (Inl e, jobs[r := j'])
              | (Inr _, j') \<Rightarrow> run_callbacks env w (jobs[r := j']) rest)
         | Failure \<Rightarrow> run_callbacks env w (jobs[r := failure_callback (jobs ! r)]) rest
         | NoReply \<Rightarrow> run_callbacks env w jobs rest)"

definition execute ::
  "remote \<Rightarrow> world \<Rightarrow> async_job list \<Rightarrow> FacebookAdsApiBatch \<Rightarrow>
     (py_error + FacebookAdsApiBatch option) \<times> world \<times> async_job list" where
  "execute env w jobs calls =
     (if calls = [] then (Inr None, w, jobs)
      else
        (let w' = w @ [BatchExecute (map snd calls)];
             replies = map (\<lambda>(k, (r, h)). batch_reply env (length w) k h) (enumerate 0 calls);
             retry = map fst (filter (\<lambda>(c, rep). rep = NoReply) (zip calls replies))
         in case run_callbacks env w' jobs (zip calls replies) of
              (Inl e, jobs') \<Rightarrow> (Inl e, w', jobs')
            | (Inr _, jobs') \<Rightarrow> (Inr (if retry = [] then None else Some retry), w', jobs')))"

text \<open>
  \<^verbatim>\<open>while batch: batch = batch.execute()\<close>. The loop runs for as long as the remote side
  leaves calls unanswered; \<open>None\<close> is the loop still running when the fuel is used up.
\<close>

primrec drain ::
  "nat \<Rightarrow> remote \<Rightarrow> world \<Rightarrow> async_job list \<Rightarrow> FacebookAdsApiBatch option \<Rightarrow>
     ((py_error + unit) \<times> world \<times> async_job list \<times> FacebookAdsApiBatch option) option" where
  "drain 0 env w jobs batch =
     (if pending batch then None else Some (Inr (), w, jobs, batch))"
| "drain (Suc fuel) env w jobs batch =
     (case batch of
        None \<Rightarrow> Some (Inr (), w, jobs, batch)
      | Some calls \<Rightarrow>
          if calls = [] then Some (Inr (), w, jobs, batch)
          else
            (case execute env w jobs calls of
               (Inl e, w', jobs') \<Rightarrow> Some (Inl e, w', jobs', batch)
             | (Inr batch', w', jobs') \<Rightarrow> drain fuel env w' jobs' batch'))"

subsection \<open>\<^verbatim>\<open>update_job\<close>\<close>

text \<open>
  The outcome of \<^verbatim>\<open>update_job\<close>: the exception or the return, the trace, the job, and
  the batch object that was passed; \<open>None\<close> is a call that has not returned when the
  fuel is used up.
\<close>

type_synonym 'j updated =
  "((py_error + unit) \<times> world \<times> 'j \<times> FacebookAdsApiBatch option) option"

text \<open>
  The two loops of \<^verbatim>\<open>ParentAsyncJob.update_job\<close>. \<open>update_each\<close> is
  \<^verbatim>\<open>for job in jobs: job.update_job(batch=batch)\<close> over the references of one chunk;
  \<open>upd\<close> is the method \<^verbatim>\<open>update_job\<close> of the children, dispatched on the child.
  \<open>update_chunks\<close> is the loop over the chunks, each followed by the draining of
  whatever the variable \<^verbatim>\<open>batch\<close> holds by then. An exception of a child leaves the
  method.
\<close>

primrec update_each ::
  "(job_ref \<Rightarrow> world \<Rightarrow> async_job \<Rightarrow> FacebookAdsApiBatch option \<Rightarrow> async_job updated) \<Rightarrow>
     world \<Rightarrow> async_job list \<Rightarrow> FacebookAdsApiBatch option \<Rightarrow> job_ref list \<Rightarrow>
     (async_job list) updated" where
  "update_each upd w jobs batch [] = Some (Inr (), w, jobs, batch)"
| "update_each upd w jobs batch (r # rs) =
     (case upd r w (jobs ! r) batch of
        None \<Rightarrow> None
      | Some (res, w', j', batch') \<Rightarrow>
          (case res of
             Inl e \<Rightarrow> Some (Inl e, w', jobs[r := j'], batch')
           | Inr _ \<Rightarrow> update_each upd w' (jobs[r := j']) batch' rs))"

primrec update_chunks ::
  "nat \<Rightarrow> remote \<Rightarrow>
     (job_ref \<Rightarrow> world \<Rightarrow> async_job \<Rightarrow> FacebookAdsApiBatch option \<Rightarrow> async_job updated) \<Rightarrow>
     world \<Rightarrow> async_job list \<Rightarrow> FacebookAdsApiBatch option \<Rightarrow> job_ref list list \<Rightarrow>
     (async_job list) updated" where
  "update_chunks fuel env upd w jobs batch [] = Some (Inr (), w, jobs, batch)"
| "update_chunks fuel env upd w jobs batch (c # cs) =
     (case update_each upd w jobs batch c of
        None \<Rightarrow> None
      | Some (res, w', jobs', batch') \<Rightarrow>
          (case res of
             Inl e \<Rightarrow> Some (Inl e, w', jobs', batch')
           | Inr _ \<Rightarrow>
               (case drain fuel env w' jobs' batch' of
                  None \<Rightarrow> None
                | Some (res', w'', jobs'', batch'') \<Rightarrow>
                    (case res' of
                       Inl e \<Rightarrow> Some (Inl e, w'', jobs'', batch'')
                     | Inr _ \<Rightarrow> update_chunks fuel env upd w'' jobs'' batch'' cs))))"

text \<open>
  \<^verbatim>\<open>ParentAsyncJob.update_job(self, batch=None)\<close>. The parameter \<open>batch\<close> is the
  caller's object; the method rebinds its local variable to a new batch at once and never
  touches the caller's.
\<close>

definition Parent_update_job ::
  "nat \<Rightarrow> remote \<Rightarrow>
     (job_ref \<Rightarrow> world \<Rightarrow> async_job \<Rightarrow> FacebookAdsApiBatch option \<Rightarrow> async_job updated) \<Rightarrow>
     world \<Rightarrow> async_job list \<Rightarrow> FacebookAdsApiBatch option \<Rightarrow> (async_job list) updated" where
  "Parent_update_job fuel env upd w jobs batch =
     (let unfinished_jobs = filter (\<lambda>r. \<not> completed (jobs ! r)) [0 ..< length jobs]
      in case chunks unfinished_jobs 50 of
           Inl e \<Rightarrow> Some (Inl e, w, jobs, batch)
         | Inr cs \<Rightarrow>
             (case update_chunks fuel env upd w jobs new_batch cs of
                None \<Rightarrow> None
              | Some (res, w', jobs', _) \<Rightarrow> Some (res, w', jobs', batch)))"

text \<open>
  \<^verbatim>\<open>update_job\<close> of any job. The fuel bounds the nesting of groups and the rounds of
  every draining; a leaf needs none.
\<close>

primrec update_job ::
  "nat \<Rightarrow> remote \<Rightarrow> job_ref \<Rightarrow> world \<Rightarrow> async_job \<Rightarrow> FacebookAdsApiBatch option \<Rightarrow>
     async_job updated" where
  "update_job 0 env self w job batch =
     (case job of
        InsightAsyncJob j \<Rightarrow>
          (case Insight_update_job env self w j batch of
             (res, w', j', batch') \<Rightarrow> Some (res, w', InsightAsyncJob j', batch'))
      | ParentAsyncJob a i n jobs \<Rightarrow> None)"
| "update_job (Suc fuel) env self w job batch =
     (case job of
        InsightAsyncJob j \<Rightarrow>
          (case Insight_update_job env self w j batch of
             (res, w', j', batch') \<Rightarrow> Some (res, w', InsightAsyncJob j', batch'))
      | ParentAsyncJob a i n jobs \<Rightarrow>
          (case Parent_update_job fuel env (update_job fuel env) w jobs batch of
             None \<Rightarrow> None
           | Some (res, w', jobs', batch') \<Rightarrow> Some (res, w', ParentAsyncJob a i n jobs', batch')))"

subsection \<open>Concrete jobs and remote sides\<close>

text \<open>
  The inputs at which the theorems below are instantiated: the interval
  2021-01-01 to 2021-01-07 (day numbers 18628 and 18634), a remote side that accepts
  every submission and reports every run as running, with the logger not enabled for INFO,
  and jobs in each state of the life cycle.
\<close>

definition week :: Period where
  "week = \<lparr> period_start = 18628, period_end = 18634 \<rparr>"

definition run :: "string \<Rightarrow> string \<Rightarrow> AdReportRun" where
  "run ident status = \<lparr> report_run_id = ident, async_status = status, async_percent_completion = 0 \<rparr>"

definition running_remote :: remote where
  "running_remote =
     \<lparr> clock = (\<lambda>n. 1000 + n),
       get_insights_async = (\<lambda>n edge ps. Inr (run ''run-1'' STARTED)),
       get_insights = (\<lambda>n edge ps. Inr []),
       api_get = (\<lambda>n h. Inr (h\<lparr> async_status := RUNNING \<rparr>)),
       batch_reply = (\<lambda>n k h. Success (h\<lparr> async_status := RUNNING \<rparr>)),
       get_result_rows = (\<lambda>n h limit. Some []),
       info_enabled = False \<rparr>"

text \<open>The same remote side, with the logger enabled for INFO.\<close>

definition info_remote :: remote where
  "info_remote = running_remote\<lparr> info_enabled := True \<rparr>"

text \<open>The same remote side, whose probe query finds the campaigns A, B, C (A twice).\<close>

definition abc_remote :: remote where
  "abc_remote =
     running_remote\<lparr> get_insights :=
       (\<lambda>n edge ps. Inr [[(''campaign_id'', ''A'')], [(''campaign_id'', ''B'')],
                           [(''campaign_id'', ''A'')], [(''campaign_id'', ''C'')]]) \<rparr>"

text \<open>A remote side that reports a run as running at first and as completed from its third request on.\<close>

definition scripted_remote :: remote where
  "scripted_remote =
     running_remote\<lparr> api_get :=
       (\<lambda>n h. Inr (h\<lparr> async_status := (if n < 2 then RUNNING else COMPLETED) \<rparr>)) \<rparr>"

definition fresh_job :: insight_job where
  "fresh_job =
     \<lparr> self_api = 0, self_interval = week, self_attempt_number = 1,
       self_params = [(''breakdowns'', StrList []), (''time_increment'', Num 1),
                      (''time_range'', TimeRange 18628 18634)],
       self_edge_object = AdAccount ''act_1'', self_job = None, self_start_time = None,
       self_finish_time = None, self_failed = False \<rparr>"

text \<open>A job whose parameters do not hold \<^verbatim>\<open>breakdowns\<close>, fresh and started.\<close>

definition bare_job :: insight_job where
  "bare_job =
     fresh_job\<lparr> self_params := [(''time_increment'', Num 1),
                                   (''time_range'', TimeRange 18628 18634)] \<rparr>"

definition bare_started_job :: insight_job where
  "bare_started_job =
     bare_job\<lparr> self_job := Some (run ''run-1'' STARTED), self_start_time := Some 1001 \<rparr>"

definition started_job :: "string \<Rightarrow> string \<Rightarrow> insight_job" where
  "started_job ident status =
     fresh_job\<lparr> self_job := Some (run ident status), self_start_time := Some 1001 \<rparr>"

definition finished_job :: insight_job where
  "finished_job = (started_job ''run-1'' COMPLETED)\<lparr> self_finish_time := Some 1002 \<rparr>"

definition failed_job :: insight_job where
  "failed_job =
     (started_job ''run-1'' FAILED)\<lparr> self_finish_time := Some 1002, self_failed := True \<rparr>"

text \<open>A group of \<open>k\<close> started, unfinished leaf jobs, the run of child \<open>i\<close> named by \<open>i\<close> strokes.\<close>

definition started_child :: "nat \<Rightarrow> async_job" where
  "started_child i = InsightAsyncJob (started_job (replicate i (CHR ''|'')) STARTED)"

definition started_group :: "nat \<Rightarrow> async_job" where
  "started_group k = ParentAsyncJob 0 week 1 (map started_child [0 ..< k])"

section \<open>Properties of the leaf job\<close>

lemmas fixture_defs = week_def run_def running_remote_def info_remote_def abc_remote_def
  fresh_job_def bare_job_def bare_started_job_def started_job_def finished_job_def failed_job_def

lemmas status_defs = COMPLETED_def FAILED_def SKIPPED_def STARTED_def RUNNING_def

lemmas log_defs = logger_info_keywords_def getitem_def start_log_def Insight_str_def misuse_def

text \<open>The invariant holds after the constructor and is kept by every method.\<close>

lemma leaf_inv_init:
  "InsightAsyncJob_init edge ps api interval = Inr j \<Longrightarrow> leaf_inv j"
  by (auto simp: InsightAsyncJob_init_def AsyncJob_init_def leaf_inv_def update_conv'
           split: option.splits)

lemma leaf_inv_start:
  "leaf_inv j \<Longrightarrow> leaf_inv (snd (snd (Insight_start env w j)))"
  by (auto simp: Insight_start_def leaf_inv_def Let_def split: sum.splits)

lemma leaf_inv_restart:
  "leaf_inv j \<Longrightarrow> leaf_inv (snd (snd (Insight_restart env w j)))"
  by (auto simp: Insight_restart_def Insight_start_def leaf_inv_def Let_def split: sum.splits)

lemma leaf_inv_check_status:
  "leaf_inv j \<Longrightarrow> leaf_inv (snd (Insight_check_status env w j))"
  by (auto simp: Insight_check_status_def leaf_inv_def Let_def split: option.splits sum.splits)

lemma leaf_inv_success_handler:
  "leaf_inv j \<Longrightarrow> leaf_inv (snd (batch_success_handler env w j response))"
  by (auto simp: batch_success_handler_def Insight_check_status_def leaf_inv_def Let_def
           split: option.splits sum.splits)

lemma leaf_inv_update_job:
  "leaf_inv j \<Longrightarrow> leaf_inv (fst (snd (snd (Insight_update_job env self w j batch))))"
  by (auto simp: Insight_update_job_def Insight_check_status_def leaf_inv_def Let_def
           split: option.splits sum.splits)

text \<open>
  C3, evaluated. The logger is enabled for INFO. A started leaf job whose run is reported
  as completed is observed: the first log statement of the status check raises
  \<^verbatim>\<open>TypeError\<close> before any assignment, so the job is left as it was and is not
  completed. Likewise a run reported as failed does not make the job failed.
\<close>

theorem check_status_raises_under_info:
  "self_job (started_job ''run-1'' COMPLETED) = Some (run ''run-1'' COMPLETED)
   \<and> Insight_check_status info_remote [] (started_job ''run-1'' COMPLETED)
       = (Inl (TypeError ''_log() got an unexpected keyword argument''),
          started_job ''run-1'' COMPLETED)
   \<and> \<not> Insight_completed (started_job ''run-1'' COMPLETED)
   \<and> Insight_check_status info_remote [] (started_job ''run-1'' FAILED)
       = (Inl (TypeError ''_log() got an unexpected keyword argument''),
          started_job ''run-1'' FAILED)
   \<and> \<not> Insight_failed (started_job ''run-1'' FAILED)"
  by (simp add: fixture_defs Insight_check_status_def logger_info_keywords_def
        Insight_completed_def Insight_failed_def)

text \<open>With the logger enabled for INFO no status check ever changes a job.\<close>

lemma check_status_raises_when_enabled:
  assumes "info_enabled env" and "self_job j = Some h"
  shows "Insight_check_status env w j
           = (Inl (TypeError ''_log() got an unexpected keyword argument''), j)"
  using assms by (simp add: Insight_check_status_def logger_info_keywords_def)

text \<open>
  With the logger not enabled for INFO, a status observation on a pollable leaf job
  (started, with its start time, not completed, satisfying the invariant) does what the
  status protocol says: completed sets the finish time and leaves the job not failed;
  failed or skipped sets the finish time and the failed flag; started or running changes
  nothing.
\<close>

lemma check_status_quiet:
  assumes "\<not> info_enabled env" and "leaf_inv j" and "self_job j = Some h"
      and "\<not> Insight_completed j" and "self_start_time j \<noteq> None"
  shows "(async_status h = COMPLETED \<longrightarrow>
            (case Insight_check_status env w j of (res, j') \<Rightarrow>
               res = Inr True \<and> j' = j\<lparr> self_finish_time := Some (now env w) \<rparr>
               \<and> Insight_completed j' \<and> \<not> Insight_failed j'))
       \<and> (async_status h = FAILED \<or> async_status h = SKIPPED \<longrightarrow>
            (case Insight_check_status env w j of (res, j') \<Rightarrow>
               res = Inr True
               \<and> j' = j\<lparr> self_finish_time := Some (now env w), self_failed := True \<rparr>
               \<and> Insight_completed j' \<and> Insight_failed j'))
       \<and> (async_status h = STARTED \<or> async_status h = RUNNING \<longrightarrow>
            Insight_check_status env w j = (Inr False, j))"
  using assms
  by (auto simp: Insight_check_status_def Insight_completed_def Insight_failed_def leaf_inv_def
        logger_info_keywords_def elapsed_time_def status_defs)

text \<open>
  The scenario of the specification, with the logger not enabled for INFO: a job is
  started; the first status check finds it running and it is not completed; the second
  finds it completed, and the job is completed, has its finish time and is not failed.
\<close>

lemma scenario_running_then_completed:
  "(case Insight_start scripted_remote [] fresh_job of (r0, w1, j1) \<Rightarrow>
    case Insight_update_job scripted_remote 0 w1 j1 None of (r1, w2, j2, b2) \<Rightarrow>
    case Insight_update_job scripted_remote 0 w2 j2 None of (r2, w3, j3, b3) \<Rightarrow>
      r0 = Inr () \<and> r1 = Inr () \<and> r2 = Inr ()
      \<and> \<not> Insight_completed j1 \<and> \<not> Insight_completed j2
      \<and> Insight_completed j3 \<and> self_finish_time j3 = Some 1003 \<and> \<not> Insight_failed j3
      \<and> length w3 = 3)"
  by (simp add: scripted_remote_def running_remote_def fresh_job_def run_def week_def
        Insight_start_def Insight_update_job_def Insight_check_status_def Insight_completed_def
        Insight_failed_def now_def status_defs log_defs)

text \<open>
  C4. On a leaf job that is already completed, \<^verbatim>\<open>update_job\<close>, with or without a batch,
  makes no request (the trace is unchanged), enqueues nothing, and leaves the job as it is.
\<close>

theorem update_job_completed_noop:
  assumes "Insight_completed j"
  shows "snd (Insight_update_job env self w j batch) = (w, j, batch)"
  using assms by (simp add: Insight_update_job_def split: option.splits)

theorem update_job_completed_noop_witness:
  "Insight_completed finished_job
   \<and> Insight_update_job running_remote 0 [] finished_job None = (Inr (), [], finished_job, None)
   \<and> Insight_update_job running_remote 0 [] finished_job (Some []) = (Inr (), [], finished_job, Some [])"
  using update_job_completed_noop [of finished_job running_remote 0 "[]" None]
        update_job_completed_noop [of finished_job running_remote 0 "[]" "Some []"]
  by (simp add: fixture_defs Insight_completed_def Insight_update_job_def logger_info_keywords_def)

text \<open>
  C5. On a leaf job that has started and failed, \<^verbatim>\<open>restart\<close> is \<^verbatim>\<open>start\<close> applied to
  the job with its handle, start time and finish time reset, its failed flag cleared and
  its attempt number incremented by one. Whatever the call returns or raises: one
  submission is made; afterwards the job is not failed, has no finish time, and its attempt
  number is one more; the new handle and the start time are set if the submission
  succeeds, and stay reset if it raises.
\<close>

theorem restart_failed_job:
  assumes "self_job j \<noteq> None" and "Insight_failed j"
  shows "Insight_restart env w j =
           Insight_start env w
             (j\<lparr> self_job := None, self_failed := False, self_start_time := None,
                 self_finish_time := None, self_attempt_number := self_attempt_number j + 1 \<rparr>)
         \<and> (case Insight_restart env w j of (res, w', j') \<Rightarrow>
               w' = w @ [GetInsightsAsync (self_edge_object j) (self_params j)]
               \<and> self_attempt_number j' = self_attempt_number j + 1
               \<and> \<not> Insight_failed j' \<and> self_finish_time j' = None
               \<and> (case get_insights_async env (length w) (self_edge_object j) (self_params j) of
                     Inr h \<Rightarrow> self_job j' = Some h \<and> self_start_time j' = Some (now env w')
                   | Inl e \<Rightarrow> res = Inl e \<and> self_job j' = None \<and> self_start_time j' = None))"
  using assms
  by (auto simp: Insight_restart_def Insight_start_def Insight_failed_def Let_def split: sum.splits)

theorem restart_failed_job_witness:
  "self_job failed_job \<noteq> None \<and> Insight_failed failed_job
   \<and> Insight_restart running_remote [] failed_job =
       (Inr (), [GetInsightsAsync (AdAccount ''act_1'') (self_params fresh_job)],
        fresh_job\<lparr> self_job := Some (run ''run-1'' STARTED), self_start_time := Some 1001,
                   self_attempt_number := 2 \<rparr>)
   \<and> snd (Insight_restart info_remote [] failed_job)
       = snd (Insight_restart running_remote [] failed_job)"
  using restart_failed_job [of failed_job running_remote "[]"]
        restart_failed_job [of failed_job info_remote "[]"]
  by (simp add: fixture_defs Insight_failed_def Insight_start_def Insight_restart_def now_def log_defs)

text \<open>
  C6, evaluated. The parameters of \<open>bare_job\<close> do not hold \<^verbatim>\<open>breakdowns\<close>.
  \<^verbatim>\<open>restart\<close> on it, not failed, raises \<^verbatim>\<open>KeyError\<close> instead of the misuse error:
  building the message calls \<^verbatim>\<open>__str__\<close>, which reads the absent key. \<^verbatim>\<open>start\<close> on
  it submits the job, sets the handle and raises \<^verbatim>\<open>KeyError\<close> from its log statement;
  \<^verbatim>\<open>start\<close> on the job so started raises \<^verbatim>\<open>KeyError\<close> instead of the misuse error.
\<close>

theorem misuse_raises_KeyError_without_breakdowns:
  "\<not> Insight_failed bare_job
   \<and> Insight_restart running_remote [] bare_job = (Inl (KeyError ''breakdowns''), [], bare_job)
   \<and> Insight_start running_remote [] bare_job
       = (Inl (KeyError ''breakdowns''),
          [GetInsightsAsync (AdAccount ''act_1'') (self_params bare_job)], bare_started_job)
   \<and> self_job bare_started_job \<noteq> None
   \<and> Insight_start running_remote [] bare_started_job
       = (Inl (KeyError ''breakdowns''), [], bare_started_job)"
  by (simp add: fixture_defs Insight_failed_def Insight_restart_def Insight_start_def now_def
        log_defs)

text \<open>
  In every case the misused call raises and leaves the job and the trace unchanged; for a
  job whose parameters hold \<^verbatim>\<open>time_range\<close> and \<^verbatim>\<open>breakdowns\<close> the exception is the
  misuse error.
\<close>

lemma misuse_unchanged:
  "(\<not> Insight_failed j \<longrightarrow> snd (Insight_restart env w j) = (w, j) \<and> isl (fst (Insight_restart env w j)))
   \<and> (self_job j \<noteq> None \<longrightarrow> snd (Insight_start env w j) = (w, j) \<and> isl (fst (Insight_start env w j)))"
  by (simp add: Insight_restart_def Insight_start_def)

lemma str_with_breakdowns:
  assumes "leaf_inv j" and "map_of (self_params j) ''breakdowns'' \<noteq> None"
  shows "\<exists>s. Insight_str j = Inr s"
  using assms by (auto simp: Insight_str_def getitem_def leaf_inv_def Let_def)

lemma restart_start_misuse_with_breakdowns:
  assumes "Insight_str j = Inr s"
  shows "(\<not> Insight_failed j \<longrightarrow>
      Insight_restart env w j =
        (Inl (RuntimeError (s @ '': Incorrect usage of restart - only failed jobs can be restarted'')), w, j))
   \<and> (self_job j \<noteq> None \<longrightarrow>
      Insight_start env w j =
        (Inl (RuntimeError (s @ '': Incorrect usage of start - the job already started, use restart instead'')), w, j))"
  using assms by (simp add: Insight_restart_def Insight_start_def misuse_def)

text \<open>
  C8, as the code has it, for a leaf job whose parameters hold \<^verbatim>\<open>breakdowns\<close>.
  \<^verbatim>\<open>get_result\<close> raises the misuse error exactly when the job has no handle or is failed,
  and then makes no request. For a finished job that is not failed it requests the first
  page of the result and returns the lazy sequence when that request succeeds.
\<close>

theorem get_result_raises_iff:
  assumes "leaf_inv j" and "map_of (self_params j) ''breakdowns'' \<noteq> None"
  shows "((\<exists>m. fst (Insight_get_result env w j) = Inl (RuntimeError m))
            = (self_job j = None \<or> Insight_failed j))
       \<and> (self_job j = None \<or> Insight_failed j \<longrightarrow> snd (Insight_get_result env w j) = w)
       \<and> (Insight_completed j \<and> \<not> Insight_failed j \<longrightarrow>
            (\<exists>h. self_job j = Some h
               \<and> Insight_get_result env w j =
                   ((case get_result_rows env (length w) h page_size of
                       None \<Rightarrow> Inl FacebookRequestError
                     | Some rows \<Rightarrow> Inr (Cursor h page_size rows)),
                    w @ [GetResult h page_size])))"
proof -
  from str_with_breakdowns [OF assms] obtain s where s: "Insight_str j = Inr s"
    by (elim exE)
  show ?thesis
    using assms(1) s
    by (auto simp: Insight_get_result_def misuse_def leaf_inv_def Insight_completed_def Let_def
             split: option.splits)
qed

theorem get_result_raises_iff_witness:
  "leaf_inv finished_job \<and> map_of (self_params finished_job) ''breakdowns'' \<noteq> None
   \<and> Insight_completed finished_job \<and> \<not> Insight_failed finished_job
   \<and> Insight_get_result running_remote [] finished_job
       = (Inr (Cursor (run ''run-1'' COMPLETED) 100 []), [GetResult (run ''run-1'' COMPLETED) 100])
   \<and> Insight_get_result running_remote [] fresh_job
       = (Inl (RuntimeError
           ''InsightAsyncJob(id=<None>: Incorrect usage of get_result - the job is not started or failed''), [])
   \<and> Insight_get_result running_remote [] failed_job
       = (Inl (RuntimeError
           ''InsightAsyncJob(id=run-1: Incorrect usage of get_result - the job is not started or failed''), [])"
  using get_result_raises_iff [of finished_job running_remote "[]"]
        get_result_raises_iff [of fresh_job running_remote "[]"]
        get_result_raises_iff [of failed_job running_remote "[]"]
  by (simp add: fixture_defs leaf_inv_def Insight_completed_def Insight_failed_def page_size_def
        Insight_get_result_def log_defs)

text \<open>
  C8, as stated, fails: a started job that is still running is not finished, and
  \<^verbatim>\<open>get_result\<close> does not refuse it: it makes the request and returns the sequence.
\<close>

theorem get_result_running_job_returns:
  "\<not> Insight_completed (started_job ''run-1'' RUNNING)
   \<and> Insight_get_result running_remote [] (started_job ''run-1'' RUNNING)
       = (Inr (Cursor (run ''run-1'' RUNNING) 100 []), [GetResult (run ''run-1'' RUNNING) 100])"
  by (simp add: fixture_defs Insight_completed_def Insight_get_result_def Insight_failed_def
        page_size_def)

section \<open>Properties of the group and of the splitter\<close>

text \<open>
  C7. A group is completed exactly when every child is, and failed exactly when some child
  is. Both queries are functions of the job alone: they take no trace and make no request.
\<close>

theorem parent_completed_failed_aggregate:
  "completed (ParentAsyncJob a i n jobs) = (\<forall>job \<in> set jobs. completed job)
   \<and> failed (ParentAsyncJob a i n jobs) = (\<exists>job \<in> set jobs. failed job)"
  by (simp add: list_all_iff list_ex_iff)

theorem parent_completed_failed_aggregate_witness:
  "\<not> completed (ParentAsyncJob 0 week 1
        [InsightAsyncJob finished_job, InsightAsyncJob (started_job ''run-2'' RUNNING)])
   \<and> completed (ParentAsyncJob 0 week 1 [InsightAsyncJob finished_job, InsightAsyncJob failed_job])
   \<and> failed (ParentAsyncJob 0 week 1 [InsightAsyncJob finished_job, InsightAsyncJob failed_job])
   \<and> \<not> failed (ParentAsyncJob 0 week 1
        [InsightAsyncJob finished_job, InsightAsyncJob (started_job ''run-2'' RUNNING)])"
  using parent_completed_failed_aggregate
          [of 0 week 1 "[InsightAsyncJob finished_job, InsightAsyncJob (started_job ''run-2'' RUNNING)]"]
        parent_completed_failed_aggregate
          [of 0 week 1 "[InsightAsyncJob finished_job, InsightAsyncJob failed_job]"]
  by (simp add: fixture_defs Insight_completed_def Insight_failed_def)

text \<open>
  The probe query is issued whenever the job's parameters hold \<^verbatim>\<open>time_increment\<close> and
  the widened window starts at a date; its parameters then come from a job with a
  \<^verbatim>\<open>time_range\<close>.
\<close>

lemma probe_is_issued:
  assumes "leaf_inv j" and "map_of (self_params j) ''time_increment'' \<noteq> None"
      and "date_min \<le> period_start (self_interval j) - 29"
  shows "\<exists>cp. campaign_params j = Inr cp"
  using assms by (auto simp: campaign_params_def leaf_inv_def Let_def update_conv')

lemma probe_has_time_range:
  assumes "campaign_params j = Inr cp"
  shows "\<exists>v. getitem (self_params j) ''time_range'' = Inr v"
  using assms
  by (auto simp: campaign_params_def getitem_def Let_def update_conv'
           split: if_splits option.splits param.splits)

text \<open>
  C9, evaluated. The logger is enabled for INFO and the probe query of \<open>fresh_job\<close>
  returns no row, hence zero keys: \<^verbatim>\<open>split_job\<close> raises \<^verbatim>\<open>TypeError\<close> at its log
  statement, after the probe, and returns no group.
\<close>

theorem split_job_zero_keys_raises_under_info:
  "campaign_params fresh_job =
     Inr [(''breakdowns'', StrList []), (''time_range'', TimeRange 18599 18634),
          (''fields'', StrList [''campaign_id'']), (''level'', Str ''campaign'')]
   \<and> campaign_ids [] = Inr []
   \<and> Insight_split_job info_remote [] fresh_job =
       (Inl (TypeError ''_log() got an unexpected keyword argument''),
        [GetInsights (AdAccount ''act_1'')
           [(''breakdowns'', StrList []), (''time_range'', TimeRange 18599 18634),
            (''fields'', StrList [''campaign_id'']), (''level'', Str ''campaign'')]])"
  by (simp add: fixture_defs Insight_split_job_def campaign_params_def campaign_ids_def
        AList.delete_eq split_log_def getitem_def logger_info_keywords_def date_min_def)

text \<open>With the logger enabled for INFO, \<^verbatim>\<open>split_job\<close> raises whatever the probe finds.\<close>

lemma split_job_raises_when_enabled:
  assumes "info_enabled env"
      and "campaign_params j = Inr cp"
      and "get_insights env (length w) (self_edge_object j) cp = Inr result"
      and "campaign_ids result = Inr ids"
  shows "Insight_split_job env w j =
           (Inl (TypeError ''_log() got an unexpected keyword argument''),
            w @ [GetInsights (self_edge_object j) cp])"
proof -
  from probe_has_time_range [OF assms(2)] obtain v
    where "getitem (self_params j) ''time_range'' = Inr v" by (elim exE)
  with assms(1) have "split_log env j = Inl (TypeError ''_log() got an unexpected keyword argument'')"
    by (simp add: split_log_def logger_info_keywords_def)
  with assms(2-4) show ?thesis
    by (simp add: Insight_split_job_def)
qed

text \<open>
  With the logger not enabled for INFO, a probe query that returns zero keys gives a group
  with no children and the interval of the job; that group is completed at once and its
  result sequence is empty, with no request made.
\<close>

lemma split_job_zero_keys_quiet:
  assumes "\<not> info_enabled env"
      and "campaign_params j = Inr cp"
      and "get_insights env (length w) (self_edge_object j) cp = Inr result"
      and "campaign_ids result = Inr []"
  shows "Insight_split_job env w j =
           (Inr (ParentAsyncJob (self_api j) (self_interval j) 1 []),
            w @ [GetInsights (self_edge_object j) cp])
         \<and> completed (ParentAsyncJob (self_api j) (self_interval j) 1 [])
         \<and> get_result env w' (ParentAsyncJob (self_api j) (self_interval j) 1 []) = ([], None, w')"
proof -
  from probe_has_time_range [OF assms(2)] obtain v
    where "getitem (self_params j) ''time_range'' = Inr v" by (elim exE)
  with assms(1) have "split_log env j = Inr ()"
    by (simp add: split_log_def logger_info_keywords_def)
  with assms(2-4) show ?thesis
    by (simp add: Insight_split_job_def ParentAsyncJob_init_def AsyncJob_init_def)
qed

lemma split_job_zero_keys_quiet_example:
  "Insight_split_job running_remote [] fresh_job =
       (Inr (ParentAsyncJob 0 week 1 []),
        [GetInsights (AdAccount ''act_1'')
           [(''breakdowns'', StrList []), (''time_range'', TimeRange 18599 18634),
            (''fields'', StrList [''campaign_id'']), (''level'', Str ''campaign'')]])"
  by (simp add: fixture_defs Insight_split_job_def campaign_params_def campaign_ids_def
        AList.delete_eq split_log_def getitem_def logger_info_keywords_def date_min_def
        ParentAsyncJob_init_def AsyncJob_init_def)

text \<open>
  Whenever the probe query returns at least one key, \<^verbatim>\<open>split_job\<close> raises
  \<^verbatim>\<open>TypeError\<close>: from the log statement, or else from the construction of the first
  child, which is given no interval.
\<close>

lemma traverse_first_error:
  "xs \<noteq> [] \<Longrightarrow> (\<And>x. f x = Inl e) \<Longrightarrow> traverse f xs = Inl e"
  by (cases xs) simp_all

lemma split_job_nonempty_raises:
  assumes "campaign_params j = Inr cp"
      and "get_insights env (length w) (self_edge_object j) cp = Inr result"
      and "campaign_ids result = Inr ids" and "ids \<noteq> []"
  shows "\<exists>m. Insight_split_job env w j =
           (Inl (TypeError m), w @ [GetInsights (self_edge_object j) cp])"
proof (cases "info_enabled env")
  case True
  from split_job_raises_when_enabled [OF True assms(1-3)] show ?thesis by (intro exI)
next
  case False
  from probe_has_time_range [OF assms(1)] obtain v
    where "getitem (self_params j) ''time_range'' = Inr v" by (elim exE)
  with False have log: "split_log env j = Inr ()"
    by (simp add: split_log_def logger_info_keywords_def)
  have "traverse (\<lambda>pk. InsightAsyncJob_init (Campaign pk) (self_params j) (Some (self_api j)) None) ids
          = Inl (TypeError ''__init__() missing required argument: interval'')"
    using assms(4)
    by (intro traverse_first_error) (simp_all add: InsightAsyncJob_init_def AsyncJob_init_def)
  with log assms(1-3) have "Insight_split_job env w j =
           (Inl (TypeError ''__init__() missing required argument: interval''),
            w @ [GetInsights (self_edge_object j) cp])"
    by (simp add: Insight_split_job_def)
  then show ?thesis by (intro exI)
qed

text \<open>
  C2, evaluated. The probe query of \<open>fresh_job\<close> finds the campaigns A, B and C;
  \<^verbatim>\<open>split_job\<close> does not return a group of three leaf jobs, it raises \<^verbatim>\<open>TypeError\<close>.
\<close>

theorem split_job_three_keys_raises:
  "campaign_ids [[(''campaign_id'', ''A'')], [(''campaign_id'', ''B'')],
                 [(''campaign_id'', ''A'')], [(''campaign_id'', ''C'')]] = Inr [''B'', ''A'', ''C'']
   \<and> Insight_split_job abc_remote [] fresh_job =
       (Inl (TypeError ''__init__() missing required argument: interval''),
        [GetInsights (AdAccount ''act_1'')
           [(''breakdowns'', StrList []), (''time_range'', TimeRange 18599 18634),
            (''fields'', StrList [''campaign_id'']), (''level'', Str ''campaign'')]])"
  by (simp add: fixture_defs Insight_split_job_def campaign_params_def campaign_ids_def
        AList.delete_eq InsightAsyncJob_init_def AsyncJob_init_def
        split_log_def getitem_def logger_info_keywords_def date_min_def)

section \<open>Properties of \<^verbatim>\<open>update_job\<close> on a group\<close>

text \<open>The chunks, put together, are the data; each has at most \<open>n\<close> elements and none is empty.\<close>

lemma concat_slices:
  "concat (map (\<lambda>k. take n (drop (k * n) xs)) [0 ..< m]) = take (m * n) xs"
proof (induction m)
  case 0
  show ?case by simp
next
  case (Suc m)
  have "take (m * n + n) xs = take (m * n) xs @ take n (drop (m * n) xs)"
    by (rule take_add)
  with Suc show ?case by (simp add: add.commute)
qed

lemma slices_cover:
  fixes l n :: nat
  assumes "0 < n"
  shows "l \<le> (l + n - 1) div n * n"
proof -
  have "(l + n - 1) div n * n + (l + n - 1) mod n = l + n - 1" by simp
  moreover have "(l + n - 1) mod n < n" using assms by simp
  ultimately show ?thesis by linarith
qed

lemma chunks_concat:
  assumes "chunks data n = Inr cs"
  shows "concat cs = data"
proof -
  from assms have n: "0 < n" by (auto simp: chunks_def split: if_splits)
  from assms n have "cs = map (\<lambda>k. take n (drop (k * n) data)) [0 ..< (length data + n - 1) div n]"
    by (simp add: chunks_def)
  then have "concat cs = take ((length data + n - 1) div n * n) data"
    by (simp only: concat_slices)
  with slices_cover [OF n, of "length data"] show ?thesis by simp
qed

lemma chunks_bounded:
  assumes "chunks data n = Inr cs" and "c \<in> set cs"
  shows "length c \<le> n \<and> c \<noteq> []"
proof -
  from assms have n: "0 < n" by (auto simp: chunks_def split: if_splits)
  from assms n obtain k where k: "k < (length data + n - 1) div n"
    and c: "c = take n (drop (k * n) data)"
    by (auto simp: chunks_def)
  from k have "Suc k \<le> (length data + n - 1) div n" by simp
  then have "Suc k * n \<le> length data + n - 1"
    using n by (simp add: less_eq_div_iff_mult_less_eq)
  then have "k * n < length data" using n by simp
  with c n show ?thesis by simp
qed

text \<open>
  C10. \<^verbatim>\<open>update_job\<close> of a group does not depend on the batch it is given: with any
  batch the outcome, the trace and the updated group are those of the call without one, the
  given batch is handed back as it was, and any two batches give the same outcome, trace
  and group (also when the call does not return).
\<close>

theorem parent_update_job_ignores_batch:
  "update_job fuel env self w (ParentAsyncJob a i n jobs) batch =
     map_option (\<lambda>(res, w', job', _). (res, w', job', batch))
       (update_job fuel env self w (ParentAsyncJob a i n jobs) None)
   \<and> map_option (\<lambda>(res, w', job', _). (res, w', job'))
       (update_job fuel env self w (ParentAsyncJob a i n jobs) batch)
     = map_option (\<lambda>(res, w', job', _). (res, w', job'))
       (update_job fuel env self w (ParentAsyncJob a i n jobs) batch2)"
  by (cases fuel) (auto simp: Parent_update_job_def split: sum.splits option.splits)

text \<open>
  The callbacks of a batch touch only the jobs they are bound to; they do not raise when
  the logger is not enabled for INFO and no run is reported as failed or skipped.
\<close>

lemma success_callback_returns:
  assumes "\<not> info_enabled env"
      and "async_status response \<noteq> FAILED" and "async_status response \<noteq> SKIPPED"
  shows "\<exists>b. fst (success_callback env w job response) = Inr b"
  using assms
  by (cases job)
     (auto simp: batch_success_handler_def Insight_check_status_def logger_info_keywords_def
        Let_def split: prod.splits)

lemma run_callbacks_returns:
  assumes "\<not> info_enabled env"
      and "\<forall>x \<in> set xs. \<forall>h'. snd x = Success h' \<longrightarrow>
             async_status h' \<noteq> FAILED \<and> async_status h' \<noteq> SKIPPED"
  shows "fst (run_callbacks env w jobs xs) = Inr ()"
  using assms(2)
proof (induction xs arbitrary: jobs)
  case Nil
  show ?case by simp
next
  case (Cons x xs)
  then have rest: "\<forall>x \<in> set xs. \<forall>h'. snd x = Success h' \<longrightarrow>
             async_status h' \<noteq> FAILED \<and> async_status h' \<noteq> SKIPPED" by simp
  show ?case
  proof (cases "snd x")
    case (Success response)
    with Cons.prems have "async_status response \<noteq> FAILED" "async_status response \<noteq> SKIPPED"
      by simp_all
    from success_callback_returns [OF assms(1) this, where w = w and job = "jobs ! fst (fst x)"]
    obtain b j' where "success_callback env w (jobs ! fst (fst x)) response = (Inr b, j')"
      by (cases "success_callback env w (jobs ! fst (fst x)) response") auto
    with Success Cons.IH [OF rest] show ?thesis by (simp add: Let_def)
  next
    case Failure
    with Cons.IH [OF rest] show ?thesis by (simp add: Let_def)
  next
    case NoReply
    with Cons.IH [OF rest] show ?thesis by (simp add: Let_def)
  qed
qed

lemma run_callbacks_length: "length (snd (run_callbacks env w jobs xs)) = length jobs"
proof (induction xs arbitrary: jobs)
  case Nil
  show ?case by simp
next
  case (Cons x xs)
  show ?case
    by (cases "snd x") (auto simp: Let_def Cons.IH split: prod.splits sum.splits)
qed

lemma run_callbacks_frame:
  "r \<notin> fst ` fst ` set xs \<Longrightarrow> snd (run_callbacks env w jobs xs) ! r = jobs ! r"
proof (induction xs arbitrary: jobs)
  case Nil
  show ?case by simp
next
  case (Cons x xs)
  then have neq: "fst (fst x) \<noteq> r" and rest: "r \<notin> fst ` fst ` set xs" by auto
  show ?case
  proof (cases "snd x")
    case (Success response)
    obtain res j' where sc: "success_callback env w (jobs ! fst (fst x)) response = (res, j')"
      by (cases "success_callback env w (jobs ! fst (fst x)) response")
    show ?thesis
      using Success sc Cons.IH [OF rest] neq by (cases res) (simp_all add: Let_def)
  next
    case Failure
    then show ?thesis using Cons.IH [OF rest] neq by (simp add: Let_def)
  next
    case NoReply
    then show ?thesis using Cons.IH [OF rest] by (simp add: Let_def)
  qed
qed

text \<open>One chunk of started, unfinished leaves, with a batch: every check is enqueued.\<close>

lemma update_each_enqueues:
  assumes "\<forall>r \<in> set rs. \<exists>j h. jobs ! r = InsightAsyncJob j \<and> self_job j = Some h
              \<and> self_finish_time j = None \<and> H r = h"
  shows "update_each (update_job fuel env) w jobs (Some calls) rs
           = Some (Inr (), w, jobs, Some (calls @ map (\<lambda>r. (r, H r)) rs))"
  using assms
proof (induction rs arbitrary: calls)
  case Nil
  show ?case by simp
next
  case (Cons r rs)
  then obtain j where j: "jobs ! r = InsightAsyncJob j" "self_job j = Some (H r)"
    "self_finish_time j = None" by auto
  have "update_job fuel env r w (jobs ! r) (Some calls)
          = Some (Inr (), w, jobs ! r, Some (calls @ [(r, H r)]))"
    using j by (cases fuel) (simp_all add: Insight_update_job_def Insight_completed_def)
  moreover have "update_each (update_job fuel env) w jobs (Some (calls @ [(r, H r)])) rs
          = Some (Inr (), w, jobs, Some ((calls @ [(r, H r)]) @ map (\<lambda>r. (r, H r)) rs))"
    using Cons.prems by (intro Cons.IH) simp
  ultimately show ?case by simp
qed

lemma execute_all_answered:
  assumes "calls \<noteq> []" and "\<not> info_enabled env"
      and "\<forall>n k h. batch_reply env n k h \<noteq> NoReply"
      and "\<forall>n k h h'. batch_reply env n k h = Success h'
             \<longrightarrow> async_status h' \<noteq> FAILED \<and> async_status h' \<noteq> SKIPPED"
  shows "\<exists>jobs'. execute env w jobs calls = (Inr None, w @ [BatchExecute (map snd calls)], jobs')
           \<and> length jobs' = length jobs
           \<and> (\<forall>r. r \<notin> fst ` set calls \<longrightarrow> jobs' ! r = jobs ! r)"
proof -
  define replies where
    "replies = map (\<lambda>(k, (r, h)). batch_reply env (length w) k h) (enumerate 0 calls)"
  have answered: "\<forall>rep \<in> set replies. rep \<noteq> NoReply"
    using assms(3) by (auto simp: replies_def)
  have fine: "\<forall>rep \<in> set replies. \<forall>h'. rep = Success h' \<longrightarrow>
                async_status h' \<noteq> FAILED \<and> async_status h' \<noteq> SKIPPED"
    using assms(4) by (auto simp: replies_def)
  have fine_zip: "\<forall>x \<in> set (zip calls replies). \<forall>h'. snd x = Success h' \<longrightarrow>
                async_status h' \<noteq> FAILED \<and> async_status h' \<noteq> SKIPPED"
  proof
    fix x assume "x \<in> set (zip calls replies)"
    then have "(fst x, snd x) \<in> set (zip calls replies)" by simp
    then have "snd x \<in> set replies" by (rule set_zip_rightD)
    with fine show "\<forall>h'. snd x = Success h' \<longrightarrow>
                async_status h' \<noteq> FAILED \<and> async_status h' \<noteq> SKIPPED"
      by (rule bspec)
  qed
  from answered have retry: "filter (\<lambda>(c, rep). rep = NoReply) (zip calls replies) = []"
    by (auto simp: filter_empty_conv dest: set_zip_rightD)
  let ?w = "w @ [BatchExecute (map snd calls)]"
  obtain jobs' where rc: "run_callbacks env ?w jobs (zip calls replies) = (Inr (), jobs')"
    using run_callbacks_returns [OF assms(2) fine_zip, where w = ?w and jobs = jobs]
    by (cases "run_callbacks env ?w jobs (zip calls replies)") auto
  have len: "length jobs' = length jobs"
    using run_callbacks_length [of env ?w jobs "zip calls replies"] rc by simp
  have frame: "jobs' ! r = jobs ! r" if "r \<notin> fst ` set calls" for r
  proof -
    have "fst ` fst ` set (zip calls replies) \<subseteq> fst ` set calls"
      by (force dest: set_zip_leftD)
    with that have "r \<notin> fst ` fst ` set (zip calls replies)" by blast
    from run_callbacks_frame [OF this, of env ?w jobs] rc show ?thesis by simp
  qed
  have "execute env w jobs calls = (Inr None, ?w, jobs')"
    using assms(1) rc retry by (simp add: execute_def Let_def replies_def)
  with len frame show ?thesis by blast
qed

lemma drain_nothing_pending:
  "\<not> pending batch \<Longrightarrow> drain fuel env w jobs batch = Some (Inr (), w, jobs, batch)"
  by (cases fuel) (auto simp: pending_def split: option.splits)

lemma chunks_51: "chunks [0 ..< 51] 50 = Inr [[0 ..< 50], [50]]"
proof -
  have "[0 ..< (2::nat)] = [0, 1]" by (simp add: upt_rec)
  moreover have "take 50 [0 ..< (51::nat)] = [0 ..< 50]" by (simp add: take_upt)
  moreover have "take 50 (drop 50 [0 ..< (51::nat)]) = [50]" by (simp add: drop_upt upt_rec)
  ultimately show ?thesis by (simp add: chunks_def)
qed

lemma started_group_nth:
  "r < k \<Longrightarrow> jobs_of (started_group k) ! r = started_child r"
  by (simp add: started_group_def)

text \<open>
  C1, evaluated. A group of 51 started, unfinished leaf jobs is updated against a remote
  side that answers every call of a batch. The first 50 status checks go out in one
  batch; draining it leaves the variable \<^verbatim>\<open>batch\<close> empty-handed, and the status check of
  the 51st child is made as an immediate synchronous call.
\<close>

theorem update_job_second_chunk_synchronous:
  "map_option (\<lambda>(res, w', job', batch'). (res, w'))
     (update_job 2 running_remote 0 [] (started_group 51) None)
   = Some (Inr (), [BatchExecute (map (\<lambda>i. run (replicate i (CHR ''|'')) STARTED) [0 ..< 50]),
                    ApiGet (run (replicate 50 (CHR ''|'')) STARTED)])"
proof -
  let ?env = running_remote
  let ?jobs = "map started_child [0 ..< 51]"
  let ?H = "\<lambda>i. run (replicate i (CHR ''|'')) STARTED"
  let ?calls = "map (\<lambda>r. (r, ?H r)) [0 ..< 50]"
  have "filter (\<lambda>r. \<not> completed (?jobs ! r)) [0 ..< length ?jobs] = [0 ..< length ?jobs]"
    by (rule filter_True)
       (simp add: started_child_def started_job_def fresh_job_def Insight_completed_def)
  then have unfinished:
    "filter (\<lambda>r. \<not> completed (?jobs ! r)) [0 ..< length ?jobs] = [0 ..< 51]"
    by simp
  have enq: "update_each (update_job 1 ?env) [] ?jobs (Some []) [0 ..< 50]
               = Some (Inr (), [], ?jobs, Some ([] @ ?calls))"
    by (rule update_each_enqueues)
       (simp add: started_child_def started_job_def fresh_job_def)
  have ne: "?calls \<noteq> []" by (simp add: upt_rec)
  have quiet: "\<not> info_enabled ?env"
    by (simp add: running_remote_def)
  have ans: "\<forall>n k h. batch_reply ?env n k h \<noteq> NoReply"
    by (simp add: running_remote_def)
  have fine: "\<forall>n k h h'. batch_reply ?env n k h = Success h'
                \<longrightarrow> async_status h' \<noteq> FAILED \<and> async_status h' \<noteq> SKIPPED"
    by (auto simp: running_remote_def status_defs)
  obtain jobs' where ex: "execute ?env [] ?jobs ?calls = (Inr None, [] @ [BatchExecute (map snd ?calls)], jobs')"
    and len: "length jobs' = length ?jobs"
    and frame: "\<forall>r. r \<notin> fst ` set ?calls \<longrightarrow> jobs' ! r = ?jobs ! r"
    using execute_all_answered [OF ne quiet ans fine, where w = "[]" and jobs = ?jobs]
    by (elim exE conjE)
  have j50: "jobs' ! 50 = started_child 50"
  proof -
    have "(50::nat) \<notin> fst ` set ?calls" by auto
    with frame have "jobs' ! 50 = ?jobs ! 50" by blast
    then show ?thesis by simp
  qed
  have snd_calls: "map snd ?calls = map ?H [0 ..< 50]" by (simp add: comp_def)
  have dr: "drain 1 ?env [] ?jobs (Some ?calls)
              = Some (Inr (), [BatchExecute (map ?H [0 ..< 50])], jobs', None)"
    using ne ex snd_calls by (simp add: pending_def del: upt_Suc map_map)
  have sync: "update_job 1 ?env 50 [BatchExecute (map ?H [0 ..< 50])] (jobs' ! 50) None
      = Some (Inr (), [BatchExecute (map ?H [0 ..< 50]), ApiGet (?H 50)],
              InsightAsyncJob ((started_job (replicate 50 (CHR ''|'')) STARTED)
                \<lparr> self_job := Some ((?H 50)\<lparr> async_status := RUNNING \<rparr>) \<rparr>), None)"
    unfolding j50
    by (simp add: started_child_def started_job_def Insight_update_job_def Insight_completed_def
          Insight_check_status_def running_remote_def run_def fresh_job_def
          logger_info_keywords_def status_defs
        del: upt_Suc)
  have chunks2: "update_chunks 1 ?env (update_job 1 ?env) [] ?jobs new_batch [[0 ..< 50], [50]]
      = Some (Inr (), [BatchExecute (map ?H [0 ..< 50]), ApiGet (?H 50)],
              jobs'[50 := InsightAsyncJob ((started_job (replicate 50 (CHR ''|'')) STARTED)
                \<lparr> self_job := Some ((?H 50)\<lparr> async_status := RUNNING \<rparr>) \<rparr>)], None)"
    using enq dr sync
    by (simp add: new_batch_def pending_def drain_nothing_pending
          del: upt_Suc drain.simps update_job.simps)
  show ?thesis
    using unfinished chunks_51 chunks2
    by (simp add: started_group_def numeral_2_eq_2 Parent_update_job_def
          del: upt_Suc drain.simps)
qed

lemma chunks_single:
  assumes "xs \<noteq> []" and "length xs \<le> n"
  shows "chunks xs n = Inr [xs]"
proof -
  from assms have n: "0 < n" by (cases xs) auto
  have "length xs + n - 1 < 2 * n" using assms n by simp
  moreover have "n \<le> length xs + n - 1" using assms(1) by (cases xs) auto
  ultimately have "(length xs + n - 1) div n = 1"
    by (metis One_nat_def Suc_1 div_nat_eqI mult.commute mult_Suc_right nat_mult_1_right)
  with n assms(2) show ?thesis by (simp add: chunks_def)
qed

lemma update_chunks_single:
  assumes "update_each upd w jobs batch c = Some (Inr (), w1, jobs1, batch1)"
      and "drain fuel env w1 jobs1 batch1 = Some (Inr (), w2, jobs2, batch2)"
  shows "update_chunks fuel env upd w jobs batch [c] = Some (Inr (), w2, jobs2, batch2)"
  using assms by (simp del: drain.simps)

lemma drain_all_answered:
  assumes "calls \<noteq> []" and "\<not> info_enabled env"
      and "\<forall>n k h. batch_reply env n k h \<noteq> NoReply"
      and "\<forall>n k h h'. batch_reply env n k h = Success h'
             \<longrightarrow> async_status h' \<noteq> FAILED \<and> async_status h' \<noteq> SKIPPED"
  shows "\<exists>jobs'. drain (Suc fuel) env w jobs (Some calls)
            = Some (Inr (), w @ [BatchExecute (map snd calls)], jobs', None)
          \<and> length jobs' = length jobs
          \<and> (\<forall>r. r \<notin> fst ` set calls \<longrightarrow> jobs' ! r = jobs ! r)"
proof -
  obtain jobs' where ex: "execute env w jobs calls = (Inr None, w @ [BatchExecute (map snd calls)], jobs')"
    and rest: "length jobs' = length jobs" "\<forall>r. r \<notin> fst ` set calls \<longrightarrow> jobs' ! r = jobs ! r"
    using execute_all_answered [OF assms, where w = w and jobs = jobs] by (elim exE conjE)
  have "drain fuel env (w @ [BatchExecute (map snd calls)]) jobs' None
          = Some (Inr (), w @ [BatchExecute (map snd calls)], jobs', None)"
    by (rule drain_nothing_pending) (simp add: pending_def)
  with ex assms(1) have "drain (Suc fuel) env w jobs (Some calls)
            = Some (Inr (), w @ [BatchExecute (map snd calls)], jobs', None)"
    by simp
  with rest show ?thesis by blast
qed

lemma Parent_update_job_single:
  assumes "chunks (filter (\<lambda>r. \<not> completed (jobs ! r)) [0 ..< length jobs]) 50 = Inr cs"
      and "update_chunks fuel env upd w jobs new_batch cs = Some (res, w', jobs', batch')"
  shows "Parent_update_job fuel env upd w jobs batch = Some (res, w', jobs', batch)"
  using assms by (simp add: Parent_update_job_def)


text \<open>
  What the method does achieve: when the unfinished children are at most 50 started leaf
  jobs, the logger is not enabled for INFO, and the remote side answers every call of a
  batch and reports no run as failed or skipped, all their status checks go out in one
  execution of one batch, and nothing else is requested.
\<close>

lemma unfinished_leaf_started:
  assumes leaves: "\<forall>r < length jobs. \<exists>j. jobs ! r = InsightAsyncJob j
                      \<and> (self_finish_time j = None \<longrightarrow> self_job j = Some (H r))"
      and r: "r \<in> set (filter (\<lambda>r. \<not> completed (jobs ! r)) [0 ..< length jobs])"
  shows "\<exists>j h. jobs ! r = InsightAsyncJob j \<and> self_job j = Some h
                \<and> self_finish_time j = None \<and> H r = h"
proof -
  from r have lt: "r < length jobs" and nc: "\<not> completed (jobs ! r)" by simp_all
  from leaves [rule_format, OF lt] obtain j where j1: "jobs ! r = InsightAsyncJob j"
    and j2: "self_finish_time j = None \<longrightarrow> self_job j = Some (H r)"
    by (elim exE conjE)
  from nc j1 have "self_finish_time j = None" by (simp add: Insight_completed_def)
  with j1 j2 show ?thesis by blast
qed

lemma update_job_single_chunk_batched:
  assumes leaves: "\<forall>r < length jobs. \<exists>j. jobs ! r = InsightAsyncJob j
                      \<and> (self_finish_time j = None \<longrightarrow> self_job j = Some (H r))"
      and us: "us = filter (\<lambda>r. \<not> completed (jobs ! r)) [0 ..< length jobs]"
      and some: "us \<noteq> []" and few: "length us \<le> 50"
      and quiet: "\<not> info_enabled env"
      and answered: "\<forall>n k h. batch_reply env n k h \<noteq> NoReply"
      and fine: "\<forall>n k h h'. batch_reply env n k h = Success h'
             \<longrightarrow> async_status h' \<noteq> FAILED \<and> async_status h' \<noteq> SKIPPED"
  shows "\<exists>jobs'. update_job (Suc (Suc fuel)) env self w (ParentAsyncJob a i n jobs) batch
            = Some (Inr (), w @ [BatchExecute (map H us)], ParentAsyncJob a i n jobs', batch)
          \<and> length jobs' = length jobs"
proof -
  let ?calls = "map (\<lambda>r. (r, H r)) us"
  have each: "\<forall>r \<in> set us. \<exists>j h. jobs ! r = InsightAsyncJob j \<and> self_job j = Some h
                \<and> self_finish_time j = None \<and> H r = h"
    unfolding us using leaves by (intro ballI unfinished_leaf_started)
  have "update_each (update_job (Suc fuel) env) w jobs (Some []) us
               = Some (Inr (), w, jobs, Some ([] @ ?calls))"
    using each by (rule update_each_enqueues)
  then have enq: "update_each (update_job (Suc fuel) env) w jobs new_batch us
               = Some (Inr (), w, jobs, Some ?calls)"
    by (simp only: new_batch_def append_Nil)
  have ne: "?calls \<noteq> []" using some by simp
  have snd_calls: "map snd ?calls = map H us" by (simp add: comp_def)
  obtain jobs' where dr: "drain (Suc fuel) env w jobs (Some ?calls)
            = Some (Inr (), w @ [BatchExecute (map snd ?calls)], jobs', None)"
    and len: "length jobs' = length jobs"
    using drain_all_answered [OF ne quiet answered fine, where fuel = fuel and w = w and jobs = jobs]
    by (elim exE conjE)
  have chs: "update_chunks (Suc fuel) env (update_job (Suc fuel) env) w jobs new_batch [us]
          = Some (Inr (), w @ [BatchExecute (map snd ?calls)], jobs', None)"
    using enq dr by (rule update_chunks_single)
  have "chunks us 50 = Inr [us]"
    using some few by (rule chunks_single)
  then have "chunks (filter (\<lambda>r. \<not> completed (jobs ! r)) [0 ..< length jobs]) 50 = Inr [us]"
    by (simp only: us [symmetric])
  from Parent_update_job_single [OF this chs]
  have "Parent_update_job (Suc fuel) env (update_job (Suc fuel) env) w jobs batch
          = Some (Inr (), w @ [BatchExecute (map H us)], jobs', batch)"
    by (simp only: snd_calls)
  then have "update_job (Suc (Suc fuel)) env self w (ParentAsyncJob a i n jobs) batch
            = Some (Inr (), w @ [BatchExecute (map H us)], ParentAsyncJob a i n jobs', batch)"
    by (simp only: update_job.simps async_job.case option.case prod.case)
  with len show ?thesis by (intro exI conjI)
qed

end
